theory Spec2Isabelle
  imports Main "HOL-Library.AList"
begin

section \<open>Text and exceptions\<close>

text \<open>
  A Python \<open>str\<close> is a sequence of Unicode code points; a code point is a natural number
  below \<open>0x110000\<close>. String literals of the script are written with \<open>str\<close>.
\<close>

type_synonym pystr = "nat list"

definition str :: "string \<Rightarrow> pystr" where
  "str s = map of_char s"

text \<open>
  The exception classes the script names, and one tag for every other class derived from
  \<open>Exception\<close>. An exception value carries what \<open>str(e)\<close> returns. Only exceptions
  derived from \<open>Exception\<close> are modelled: a \<open>KeyboardInterrupt\<close> delivered from outside
  is not an outcome of any call of the script.
\<close>

datatype exn_class =
    ModuleNotFoundError
  | NoCredentialsError
  | EndpointConnectionError
  | ClientError
  | FileNotFoundError
  | OtherException

datatype exn = Exn (cls: exn_class) (msg: pystr)

section \<open>JSON values\<close>

text \<open>
  The values \<open>json.loads\<close> returns and \<open>json.dumps\<close> accepts in this script: \<open>None\<close>,
  booleans, integers (unbounded), floats, strings, lists, and dictionaries with string keys.
  A dictionary keeps its insertion order, so it is an association list; Python keeps its
  keys distinct. Floating-point values are a type parameter \<open>'f\<close>: their conversion from and
  to text is supplied from outside (see \<open>floats\<close>).
\<close>

datatype 'f json =
    JNull
  | JBool bool
  | JInt int
  | JFloat 'f
  | JString pystr
  | JArray "'f json list"
  | JObject "(pystr \<times> 'f json) list"

record 'f floats =
  parse_float :: "pystr \<Rightarrow> 'f"
  parse_constant :: "pystr \<Rightarrow> 'f"
  floatstr :: "'f \<Rightarrow> pystr"

section \<open>json.dumps with an indent\<close>

text \<open>
  \<open>'{0:04x}'.format(n)\<close> for \<open>n < 0x10000\<close>: four lower-case hexadecimal digits.
\<close>

definition hexdigit :: "nat \<Rightarrow> nat" where
  "hexdigit d = (if d < 10 then 0x30 + d else 0x57 + d)"

definition hex4 :: "nat \<Rightarrow> pystr" where
  "hex4 n = [hexdigit (n div 4096 mod 16), hexdigit (n div 256 mod 16),
             hexdigit (n div 16 mod 16), hexdigit (n mod 16)]"

definition u_escape :: "nat \<Rightarrow> pystr" where
  "u_escape n = [0x5C, 0x75] @ hex4 n"

text \<open>
  \<open>py_encode_basestring_ascii\<close>: the replacement of one character. \<open>ESCAPE_ASCII\<close> matches
  the backslash, the double quote and every character outside \<open>' '..'~'\<close>; \<open>ESCAPE_DCT\<close>
  holds the short escapes; the rest is \<open>\uXXXX\<close>, a surrogate pair above the BMP.
  \<open>(n >> 10) & 0x3ff\<close> is \<open>n div 1024 mod 1024\<close>, \<open>n & 0x3ff\<close> is \<open>n mod 1024\<close>, and
  \<open>0xd800 | x\<close>, \<open>0xdc00 | x\<close> add \<open>x\<close>, which is below 1024.
\<close>

definition escape_char :: "nat \<Rightarrow> pystr" where
  "escape_char c =
     (if c = 0x5C then [0x5C, 0x5C]
      else if c = 0x22 then [0x5C, 0x22]
      else if c = 0x08 then [0x5C, 0x62]
      else if c = 0x0C then [0x5C, 0x66]
      else if c = 0x0A then [0x5C, 0x6E]
      else if c = 0x0D then [0x5C, 0x72]
      else if c = 0x09 then [0x5C, 0x74]
      else if 0x20 \<le> c \<and> c \<le> 0x7E then [c]
      else if c < 0x10000 then u_escape c
      else (let n = c - 0x10000;
                s1 = 0xD800 + n div 1024 mod 1024;
                s2 = 0xDC00 + n mod 1024
            in u_escape s1 @ u_escape s2))"

definition encode_basestring_ascii :: "pystr \<Rightarrow> pystr" where
  "encode_basestring_ascii s = [0x22] @ concat (map escape_char s) @ [0x22]"

text \<open>\<open>int.__repr__\<close>: decimal digits, a minus sign before a negative number.\<close>

fun dec_digits :: "nat \<Rightarrow> pystr" where
  "dec_digits n = (if n < 10 then [0x30 + n] else dec_digits (n div 10) @ [0x30 + n mod 10])"

declare dec_digits.simps [simp del]

definition int_repr :: "int \<Rightarrow> pystr" where
  "int_repr i = (if i < 0 then 0x2D # dec_digits (nat (- i)) else dec_digits (nat i))"

text \<open>
  \<open>_make_iterencode\<close> with an indent: \<open>newline_indent\<close> is a line feed and \<open>indent * level\<close>
  spaces, the item separator is a comma, the key separator a colon and a space. An empty
  list is \<open>[]\<close> and an empty dictionary \<open>{}\<close>. \<open>iterencode_list\<close> and \<open>iterencode_dict\<close>
  are the loops over the items after the first.
\<close>

definition newline_indent :: "nat \<Rightarrow> nat \<Rightarrow> pystr" where
  "newline_indent ind level = 0x0A # replicate (ind * level) 0x20"

fun iterencode :: "'f floats \<Rightarrow> nat \<Rightarrow> nat \<Rightarrow> 'f json \<Rightarrow> pystr"
  and iterencode_list :: "'f floats \<Rightarrow> nat \<Rightarrow> nat \<Rightarrow> 'f json list \<Rightarrow> pystr"
  and iterencode_dict :: "'f floats \<Rightarrow> nat \<Rightarrow> nat \<Rightarrow> (pystr \<times> 'f json) list \<Rightarrow> pystr"
where
  "iterencode fl ind level JNull = str ''null''"
| "iterencode fl ind level (JBool b) = (if b then str ''true'' else str ''false'')"
| "iterencode fl ind level (JInt i) = int_repr i"
| "iterencode fl ind level (JFloat x) = floatstr fl x"
| "iterencode fl ind level (JString s) = encode_basestring_ascii s"
| "iterencode fl ind level (JArray []) = str ''[]''"
| "iterencode fl ind level (JArray (v # vs)) =
     [0x5B] @ newline_indent ind (level + 1) @ iterencode fl ind (level + 1) v
       @ iterencode_list fl ind (level + 1) vs @ newline_indent ind level @ [0x5D]"
| "iterencode fl ind level (JObject []) = str ''{}''"
| "iterencode fl ind level (JObject ((k, v) # kvs)) =
     [0x7B] @ newline_indent ind (level + 1)
       @ encode_basestring_ascii k @ [0x3A, 0x20] @ iterencode fl ind (level + 1) v
       @ iterencode_dict fl ind (level + 1) kvs @ newline_indent ind level @ [0x7D]"
| "iterencode_list fl ind level [] = []"
| "iterencode_list fl ind level (v # vs) =
     [0x2C] @ newline_indent ind level @ iterencode fl ind level v
       @ iterencode_list fl ind level vs"
| "iterencode_dict fl ind level [] = []"
| "iterencode_dict fl ind level ((k, v) # kvs) =
     [0x2C] @ newline_indent ind level
       @ encode_basestring_ascii k @ [0x3A, 0x20] @ iterencode fl ind level v
       @ iterencode_dict fl ind level kvs"

definition json_dumps :: "'f floats \<Rightarrow> nat \<Rightarrow> 'f json \<Rightarrow> pystr" where
  "json_dumps fl ind v = iterencode fl ind 0 v"

section \<open>json.loads\<close>

text \<open>\<open>WHITESPACE\<close> is \<open>[ \t\n\r]*\<close>.\<close>

definition is_ws :: "nat \<Rightarrow> bool" where
  "is_ws c = (c = 0x20 \<or> c = 0x09 \<or> c = 0x0A \<or> c = 0x0D)"

definition skip_ws :: "pystr \<Rightarrow> pystr" where
  "skip_ws s = dropWhile is_ws s"

text \<open>The four hexadecimal digits of a \<open>\uXXXX\<close> escape, of either case.\<close>

definition hexval :: "nat \<Rightarrow> nat option" where
  "hexval c =
     (if 0x30 \<le> c \<and> c \<le> 0x39 then Some (c - 0x30)
      else if 0x61 \<le> c \<and> c \<le> 0x66 then Some (c - 0x57)
      else if 0x41 \<le> c \<and> c \<le> 0x46 then Some (c - 0x37)
      else None)"

fun decode_uXXXX :: "pystr \<Rightarrow> nat option" where
  "decode_uXXXX (a # b # c # d # s) =
     (case (hexval a, hexval b, hexval c, hexval d) of
        (Some x, Some y, Some z, Some w) \<Rightarrow> Some (((x * 16 + y) * 16 + z) * 16 + w)
      | _ \<Rightarrow> None)"
| "decode_uXXXX _ = None"

text \<open>\<open>BACKSLASH\<close>: the characters that may follow a backslash, \<open>u\<close> apart.\<close>

definition backslash :: "nat \<Rightarrow> nat option" where
  "backslash c =
     (if c = 0x22 then Some 0x22
      else if c = 0x5C then Some 0x5C
      else if c = 0x2F then Some 0x2F
      else if c = 0x62 then Some 0x08
      else if c = 0x66 then Some 0x0C
      else if c = 0x6E then Some 0x0A
      else if c = 0x72 then Some 0x0D
      else if c = 0x74 then Some 0x09
      else None)"

text \<open>
  \<open>scanstring\<close> (strict): the input starts after the opening quote; the result is the
  decoded string and the input after the closing quote. \<open>None\<close> stands for every
  \<open>JSONDecodeError\<close>: unterminated string, control character, invalid escape.
  \<open>(uni - 0xd800) << 10 | (uni2 - 0xdc00)\<close> is \<open>(uni - 0xd800) * 1024 + (uni2 - 0xdc00)\<close>,
  the right operand being below 1024.
\<close>

fun scanstring :: "pystr \<Rightarrow> (pystr \<times> pystr) option" where
  "scanstring [] = None"
| "scanstring (c # s) =
     (if c = 0x22 then Some ([], s)
      else if c = 0x5C then
        (case s of
           [] \<Rightarrow> None
         | esc # s1 \<Rightarrow>
             if esc \<noteq> 0x75 then
               (case backslash esc of
                  None \<Rightarrow> None
                | Some ch \<Rightarrow>
                    (case scanstring s1 of
                       None \<Rightarrow> None
                     | Some (t, r) \<Rightarrow> Some (ch # t, r)))
             else
               (case decode_uXXXX s1 of
                  None \<Rightarrow> None
                | Some uni \<Rightarrow>
                    if 0xD800 \<le> uni \<and> uni \<le> 0xDBFF \<and> take 2 (drop 4 s1) = [0x5C, 0x75] then
                      (case decode_uXXXX (drop 6 s1) of
                         None \<Rightarrow> None
                       | Some uni2 \<Rightarrow>
                           if 0xDC00 \<le> uni2 \<and> uni2 \<le> 0xDFFF then
                             (case scanstring (drop 10 s1) of
                                None \<Rightarrow> None
                              | Some (t, r) \<Rightarrow>
                                  Some ((0x10000 + ((uni - 0xD800) * 1024 + (uni2 - 0xDC00))) # t, r))
                           else
                             (case scanstring (drop 4 s1) of
                                None \<Rightarrow> None
                              | Some (t, r) \<Rightarrow> Some (uni # t, r)))
                    else
                      (case scanstring (drop 4 s1) of
                         None \<Rightarrow> None
                       | Some (t, r) \<Rightarrow> Some (uni # t, r))))
      else if c < 0x20 then None
      else
        (case scanstring s of
           None \<Rightarrow> None
         | Some (t, r) \<Rightarrow> Some (c # t, r)))"

text \<open>
  \<open>NUMBER_RE\<close> is \<open>(-?(?:0|[1-9][0-9]*))(\.[0-9]+)?([eE][-+]?[0-9]+)?\<close>. \<open>match_number\<close>
  returns the three groups (an absent group is empty) and the input after the match.
  Digits are the ASCII digits, as the C scanner of the module reads them.
\<close>

definition is_digit :: "nat \<Rightarrow> bool" where
  "is_digit c = (0x30 \<le> c \<and> c \<le> 0x39)"

definition match_integer :: "pystr \<Rightarrow> (pystr \<times> pystr) option" where
  "match_integer s =
     (let (sign, s1) = (if take 1 s = [0x2D] then ([0x2D], drop 1 s) else ([], s)) in
      case s1 of
        [] \<Rightarrow> None
      | d # s2 \<Rightarrow>
          if d = 0x30 then Some (sign @ [d], s2)
          else if is_digit d then Some (sign @ d # takeWhile is_digit s2, dropWhile is_digit s2)
          else None)"

definition match_frac :: "pystr \<Rightarrow> pystr \<times> pystr" where
  "match_frac s =
     (case s of
        c # d # s2 \<Rightarrow>
          if c = 0x2E \<and> is_digit d
          then (c # d # takeWhile is_digit s2, dropWhile is_digit s2) else ([], s)
      | _ \<Rightarrow> ([], s))"

definition match_exp :: "pystr \<Rightarrow> pystr \<times> pystr" where
  "match_exp s =
     (case s of
        [] \<Rightarrow> ([], s)
      | e # s1 \<Rightarrow>
          if e = 0x65 \<or> e = 0x45 then
            (let (sign, s2) = (if take 1 s1 = [0x2D] \<or> take 1 s1 = [0x2B]
                               then (take 1 s1, drop 1 s1) else ([], s1)) in
             case s2 of
               [] \<Rightarrow> ([], s)
             | d # s3 \<Rightarrow>
                 if is_digit d
                 then (e # sign @ d # takeWhile is_digit s3, dropWhile is_digit s3)
                 else ([], s))
          else ([], s))"

definition match_number :: "pystr \<Rightarrow> (pystr \<times> pystr \<times> pystr \<times> pystr) option" where
  "match_number s =
     (case match_integer s of
        None \<Rightarrow> None
      | Some (integer, s1) \<Rightarrow>
          (let (frac, s2) = match_frac s1; (exp, s3) = match_exp s2
           in Some (integer, frac, exp, s3)))"

text \<open>
  \<open>int(integer)\<close> on what the first group matched. The limit \<open>int\<close> puts on the number
  of digits (4300 unless configured) is not modelled.
\<close>

definition digits_value :: "pystr \<Rightarrow> nat" where
  "digits_value ds = foldl (\<lambda>a c. 10 * a + (c - 0x30)) 0 ds"

definition parse_int :: "pystr \<Rightarrow> int" where
  "parse_int s =
     (if take 1 s = [0x2D] then - int (digits_value (drop 1 s)) else int (digits_value s))"

text \<open>\<open>dict(pairs)\<close>: a later pair with a key already present replaces the value in place.\<close>

definition dict :: "(pystr \<times> 'a) list \<Rightarrow> (pystr \<times> 'a) list" where
  "dict pairs = foldl (\<lambda>d (k, v). AList.update k v d) [] pairs"

lemma skip_ws_length: "length (skip_ws s) \<le> length s"
  by (simp add: skip_ws_def length_dropWhile_le)

lemma skip_ws_Cons_length: "skip_ws s = d # r \<Longrightarrow> length r < length s"
  using skip_ws_length [of s] by simp

lemma scanstring_shorter: "scanstring s = Some (t, r) \<Longrightarrow> length r < length s"
proof (induction "length s" arbitrary: s t r rule: less_induct)
  case less
  have H: "length r' < length s"
    if "scanstring s' = Some (t', r')" "length s' < length s" for s' t' r'
    using less.hyps [OF that(2) that(1)] that(2) by simp
  show ?case
  proof (cases s)
    case Nil
    with less.prems show ?thesis by simp
  next
    case (Cons c s0)
    with less.prems show ?thesis
      by (auto split: if_splits list.splits option.splits prod.splits dest: H)
  qed
qed

text \<open>
  \<open>_scan_once\<close>, with \<open>JSONObject\<close> and \<open>JSONArray\<close>. \<open>scan_once\<close> reads one value at the
  head of the input and returns it with the rest of the input; \<open>None\<close> stands for
  \<open>StopIteration\<close> and for every \<open>JSONDecodeError\<close>. \<open>parse_array\<close> is the loop of
  \<open>JSONArray\<close> from a value on, \<open>parse_object\<close> the loop of \<open>JSONObject\<close> from after the
  opening quote of a key on. The tests \<open>length r < length s\<close> hold in every run (a value
  takes at least one character, see \<open>scan_once_shorter\<close>, \<open>parse_array_loop\<close> and
  \<open>parse_object_loop\<close>); they are there for the termination proof.
\<close>

function scan_once :: "'f floats \<Rightarrow> pystr \<Rightarrow> ('f json \<times> pystr) option"
  and parse_array :: "'f floats \<Rightarrow> pystr \<Rightarrow> ('f json list \<times> pystr) option"
  and parse_object :: "'f floats \<Rightarrow> pystr \<Rightarrow> ((pystr \<times> 'f json) list \<times> pystr) option"
where
  "scan_once fl [] = None"
| "scan_once fl (c # s) =
     (if c = 0x22 then
        (case scanstring s of
           None \<Rightarrow> None
         | Some (t, r) \<Rightarrow> Some (JString t, r))
      else if c = 0x7B then
        (case skip_ws s of
           [] \<Rightarrow> None
         | d # s1 \<Rightarrow>
             if d = 0x7D then Some (JObject [], s1)
             else if d = 0x22 then
               (case parse_object fl s1 of
                  None \<Rightarrow> None
                | Some (pairs, r) \<Rightarrow> Some (JObject (dict pairs), r))
             else None)
      else if c = 0x5B then
        (case skip_ws s of
           [] \<Rightarrow> None
         | d # s1 \<Rightarrow>
             if d = 0x5D then Some (JArray [], s1)
             else
               (case parse_array fl (d # s1) of
                  None \<Rightarrow> None
                | Some (vs, r) \<Rightarrow> Some (JArray vs, r)))
      else if c = 0x6E \<and> take 4 (c # s) = str ''null'' then Some (JNull, drop 3 s)
      else if c = 0x74 \<and> take 4 (c # s) = str ''true'' then Some (JBool True, drop 3 s)
      else if c = 0x66 \<and> take 5 (c # s) = str ''false'' then Some (JBool False, drop 4 s)
      else
        (case match_number (c # s) of
           Some (integer, frac, exp, r) \<Rightarrow>
             if frac \<noteq> [] \<or> exp \<noteq> []
             then Some (JFloat (parse_float fl (integer @ frac @ exp)), r)
             else Some (JInt (parse_int integer), r)
         | None \<Rightarrow>
             if c = 0x4E \<and> take 3 (c # s) = str ''NaN''
             then Some (JFloat (parse_constant fl (str ''NaN'')), drop 2 s)
             else if c = 0x49 \<and> take 8 (c # s) = str ''Infinity''
             then Some (JFloat (parse_constant fl (str ''Infinity'')), drop 7 s)
             else if c = 0x2D \<and> take 9 (c # s) = str ''-Infinity''
             then Some (JFloat (parse_constant fl (str ''-Infinity'')), drop 8 s)
             else None))"
| "parse_array fl s =
     (case scan_once fl s of
        None \<Rightarrow> None
      | Some (v, r) \<Rightarrow>
          if length r < length s then
            (case skip_ws r of
               [] \<Rightarrow> None
             | d # r1 \<Rightarrow>
                 if d = 0x5D then Some ([v], r1)
                 else if d = 0x2C then
                   (case parse_array fl (skip_ws r1) of
                      None \<Rightarrow> None
                    | Some (vs, r2) \<Rightarrow> Some (v # vs, r2))
                 else None)
          else None)"
| "parse_object fl s =
     (case scanstring s of
        None \<Rightarrow> None
      | Some (key, r0) \<Rightarrow>
          (case skip_ws r0 of
             [] \<Rightarrow> None
           | c # r1 \<Rightarrow>
               if c \<noteq> 0x3A then None
               else
                 (case scan_once fl (skip_ws r1) of
                    None \<Rightarrow> None
                  | Some (v, r2) \<Rightarrow>
                      if length r2 < length (skip_ws r1) then
                        (case skip_ws r2 of
                           [] \<Rightarrow> None
                         | d # r3 \<Rightarrow>
                             if d = 0x7D then Some ([(key, v)], r3)
                             else if d = 0x2C then
                               (case skip_ws r3 of
                                  [] \<Rightarrow> None
                                | q # r4 \<Rightarrow>
                                    if q \<noteq> 0x22 then None
                                    else
                                      (case parse_object fl r4 of
                                         None \<Rightarrow> None
                                       | Some (pairs, r5) \<Rightarrow> Some ((key, v) # pairs, r5)))
                             else None)
                      else None)))"
  by pat_completeness auto

termination
proof (relation "measure (\<lambda>x. case x of
          Inl (fl, s) \<Rightarrow> 2 * length s
        | Inr (Inl (fl, s)) \<Rightarrow> 2 * length s + 1
        | Inr (Inr (fl, s)) \<Rightarrow> 2 * length s + 1)", goal_cases)
  case 1
  then show ?case by simp
next
  case (2 fl c s d s1)
  then show ?case using skip_ws_Cons_length [of s d s1] by simp
next
  case (3 fl c s d s1)
  then show ?case using skip_ws_length [of s] by simp
next
  case (4 fl s)
  then show ?case by simp
next
  case (5 fl s x v r d r1)
  then show ?case
    using skip_ws_Cons_length [of r d r1] skip_ws_length [of r1] by simp
next
  case (6 fl s x key r0 c r1)
  then show ?case
    using scanstring_shorter [of s key r0] skip_ws_Cons_length [of r0 c r1]
      skip_ws_length [of r1] by simp
next
  case (7 fl s x key r0 c r1 y v r2 d r3 q r4)
  then show ?case
    using scanstring_shorter [of s key r0] skip_ws_Cons_length [of r0 c r1]
      skip_ws_length [of r1] skip_ws_Cons_length [of r2 d r3]
      skip_ws_Cons_length [of r3 q r4] by simp
qed

section \<open>The script check_aws.py\<close>

text \<open>
  Everything the script meets from outside in one run: whether its imports succeed, what
  the calls of \<open>load_dotenv\<close> do (line 13 and line 55), what the STS call returns or
  raises (lines 23 and 24), and what \<open>subprocess.run\<close> returns or raises (line 38).
  \<open>None\<close> in an \<open>exn option\<close> means that the import or call went through.
  \<open>decode_error\<close> is the exception \<open>json.loads\<close> raises on a text it rejects.
\<close>

record completed =
  returncode :: int
  stdout :: pystr
  stderr :: pystr

record 'f world =
  float_ops :: "'f floats"
  dotenv_import :: "exn option"
  load_dotenv_line13 :: "exn option"
  load_dotenv_line55 :: "exn option"
  boto3_import :: "exn option"
  get_caller_identity :: "exn + 'f json"
  subprocess_run :: "exn + completed"
  decode_error :: "pystr \<Rightarrow> exn"

text \<open>
  \<open>json.loads\<close> on a \<open>str\<close>: a leading byte-order mark is refused, white space around the
  one value is skipped, anything after it is \<open>Extra data\<close>.
\<close>

definition json_loads :: "'f world \<Rightarrow> pystr \<Rightarrow> exn + 'f json" where
  "json_loads w s =
     (if take 1 s = [0xFEFF] then Inl (decode_error w s)
      else
        (case scan_once (float_ops w) (skip_ws s) of
           None \<Rightarrow> Inl (decode_error w s)
         | Some (obj, r) \<Rightarrow>
             if skip_ws r = [] then Inr obj else Inl (decode_error w s)))"

text \<open>\<open>str.strip()\<close> removes the characters for which \<open>str.isspace\<close> holds at both ends.\<close>

definition isspace :: "nat \<Rightarrow> bool" where
  "isspace c =
     ((0x09 \<le> c \<and> c \<le> 0x0D) \<or> (0x1C \<le> c \<and> c \<le> 0x20) \<or> c = 0x85 \<or> c = 0xA0
      \<or> c = 0x1680 \<or> (0x2000 \<le> c \<and> c \<le> 0x200A) \<or> c = 0x2028 \<or> c = 0x2029
      \<or> c = 0x202F \<or> c = 0x205F \<or> c = 0x3000)"

definition strip :: "pystr \<Rightarrow> pystr" where
  "strip s = rev (dropWhile isspace (rev (dropWhile isspace s)))"

text \<open>
  The two check functions return \<open>(True, payload)\<close> or \<open>(False, text)\<close>; the pair is the
  tagged value \<open>Success payload\<close> or \<open>Failure text\<close>.
\<close>

datatype 'f check = Success "'f json" | Failure pystr

text \<open>
  \<open>check_with_boto3\<close>, lines 15 to 33. The \<open>except\<close> clauses are tried in the order of
  the source. The result is \<open>Inl\<close> when an exception leaves the function.
\<close>

definition check_with_boto3 :: "'f world \<Rightarrow> exn + 'f check" where
  "check_with_boto3 w =
     (case boto3_import w of
        Some e \<Rightarrow> Inr (Failure (str ''boto3-not-available''))
      | None \<Rightarrow>
          (case get_caller_identity w of
             Inr resp \<Rightarrow> Inr (Success resp)
           | Inl e \<Rightarrow>
               if cls e = NoCredentialsError then Inr (Failure (str ''no-credentials''))
               else if cls e = EndpointConnectionError
                 then Inr (Failure (str ''endpoint-error: '' @ msg e))
               else if cls e = ClientError
                 then Inr (Failure (str ''client-error: '' @ msg e))
               else Inr (Failure (str ''unknown-error: '' @ msg e))))"

text \<open>
  What a run leaves behind: the arguments of the calls of \<open>print\<close>, in order, and the
  number of calls of \<open>subprocess.run\<close>. A run ends with \<open>sys.exit(n)\<close> or with an exception
  nothing caught.
\<close>

record effects =
  printed :: "pystr list"
  run_calls :: nat

datatype ending = Exit int | Uncaught exn

text \<open>
  The exit status of the process: the argument of \<open>sys.exit\<close>, and 1 when the interpreter
  ends on an exception nothing caught.
\<close>

definition exit_status :: "ending \<Rightarrow> int" where
  "exit_status r = (case r of Exit n \<Rightarrow> n | Uncaught x \<Rightarrow> 1)"

definition print :: "pystr \<Rightarrow> effects \<Rightarrow> effects" where
  "print s e = e\<lparr>printed := printed e @ [s]\<rparr>"

text \<open>
  \<open>check_with_awscli\<close>, lines 36 to 48. Only \<open>FileNotFoundError\<close> is caught around
  \<open>subprocess.run\<close>; every exception is caught around \<open>json.loads\<close>.
\<close>

definition check_with_awscli :: "'f world \<Rightarrow> effects \<Rightarrow> (exn + 'f check) \<times> effects" where
  "check_with_awscli w e =
     (let e1 = e\<lparr>run_calls := run_calls e + 1\<rparr> in
      case subprocess_run w of
        Inl x \<Rightarrow>
          if cls x = FileNotFoundError then (Inr (Failure (str ''aws-cli-not-found'')), e1)
          else (Inl x, e1)
      | Inr proc \<Rightarrow>
          if returncode proc \<noteq> 0
          then (Inr (Failure (str ''aws-cli-error: '' @ strip (stderr proc))), e1)
          else
            (case json_loads w (stdout proc) of
               Inr obj \<Rightarrow> (Inr (Success obj), e1)
             | Inl x \<Rightarrow> (Inr (Failure (str ''parse-error: '' @ msg x)), e1)))"

text \<open>
  \<open>main\<close>, lines 51 to 81. \<open>load_dotenv\<close> is a function object, so \<open>if load_dotenv\<close> holds;
  the \<open>try\<close> around the call lets no exception out.
\<close>

definition load_dotenv_guarded :: "'f world \<Rightarrow> exn option" where
  "load_dotenv_guarded w = (case load_dotenv_line55 w of None \<Rightarrow> None | Some x \<Rightarrow> None)"

definition main :: "'f world \<Rightarrow> effects \<Rightarrow> ending \<times> effects" where
  "main w e =
     (case load_dotenv_guarded w of
        Some x \<Rightarrow> (Uncaught x, e)
      | None \<Rightarrow>
          (case check_with_boto3 w of
             Inl x \<Rightarrow> (Uncaught x, e)
           | Inr (Success data) \<Rightarrow>
               (Exit 0,
                print (json_dumps (float_ops w) 2 data)
                  (print (str ''AWS reachable via boto3:'') e))
           | Inr (Failure data) \<Rightarrow>
               if data = str ''boto3-not-available'' then
                 (case check_with_awscli w e of
                    (Inl x, e1) \<Rightarrow> (Uncaught x, e1)
                  | (Inr (Success data2), e1) \<Rightarrow>
                      (Exit 0,
                       print (json_dumps (float_ops w) 2 data2)
                         (print (str ''AWS reachable via aws-cli:'') e1))
                  | (Inr (Failure data2), e1) \<Rightarrow>
                      (Exit 3, print (str ''AWS check failed (aws-cli): '' @ data2) e1))
               else if data = str ''no-credentials'' then
                 (Exit 2, print (str ''AWS check failed: no credentials available for boto3'') e)
               else (Exit 4, print (str ''AWS check failed (boto3): '' @ data) e)))"

text \<open>
  The script as a whole: the import of line 8, the call of line 13, then \<open>main\<close>. Neither
  line 8 nor line 13 is inside a \<open>try\<close>.
\<close>

definition start :: effects where
  "start = \<lparr>printed = [], run_calls = 0\<rparr>"

definition script :: "'f world \<Rightarrow> ending \<times> effects" where
  "script w =
     (case dotenv_import w of
        Some x \<Rightarrow> (Uncaught x, start)
      | None \<Rightarrow>
          (case load_dotenv_line13 w of
             Some x \<Rightarrow> (Uncaught x, start)
           | None \<Rightarrow> main w start))"

section \<open>Payloads\<close>

text \<open>
  A Unicode scalar value is a code point that is not a surrogate. A payload is valid JSON
  when its strings and keys hold scalar values only, the keys of each object are distinct
  (which Python's \<open>dict\<close> guarantees), and it holds no float: floating-point numbers are
  outside this development.
\<close>

definition scalar :: "nat \<Rightarrow> bool" where
  "scalar c = (c < 0x110000 \<and> \<not> (0xD800 \<le> c \<and> c \<le> 0xDFFF))"

fun valid_json :: "'f json \<Rightarrow> bool"
  and valid_list :: "'f json list \<Rightarrow> bool"
  and valid_dict :: "(pystr \<times> 'f json) list \<Rightarrow> bool"
where
  "valid_json JNull = True"
| "valid_json (JBool b) = True"
| "valid_json (JInt i) = True"
| "valid_json (JFloat x) = False"
| "valid_json (JString s) = list_all scalar s"
| "valid_json (JArray vs) = valid_list vs"
| "valid_json (JObject kvs) = (distinct (map fst kvs) \<and> valid_dict kvs)"
| "valid_list [] = True"
| "valid_list (v # vs) = (valid_json v \<and> valid_list vs)"
| "valid_dict [] = True"
| "valid_dict ((k, v) # kvs) = (list_all scalar k \<and> valid_json v \<and> valid_dict kvs)"

text \<open>
  The text that may follow a number without becoming part of it, and the characters a
  printed value may start with.
\<close>

definition tail_ok :: "pystr \<Rightarrow> bool" where
  "tail_ok r = (case r of [] \<Rightarrow> True | c # _ \<Rightarrow> \<not> is_digit c \<and> c \<noteq> 0x2E \<and> c \<noteq> 0x65 \<and> c \<noteq> 0x45)"

definition value_head :: "nat \<Rightarrow> bool" where
  "value_head c = (\<not> is_ws c \<and> c \<noteq> 0x5D \<and> c \<noteq> 0x7D \<and> c \<noteq> 0xFEFF)"

section \<open>Sample runs\<close>

text \<open>
  Concrete worlds for the closed theorems below: the identity of the scenario in the
  specification, a world whose STS call returns it, worlds whose STS call raises, and
  worlds without boto3 in which \<open>subprocess.run\<close> does as given.
\<close>

definition no_floats :: "unit floats" where
  "no_floats =
     \<lparr>parse_float = (\<lambda>s. ()), parse_constant = (\<lambda>s. ()), floatstr = (\<lambda>x. str ''0.0'')\<rparr>"

definition identity :: "unit json" where
  "identity =
     JObject [(str ''Account'', JString (str ''123456789012'')),
              (str ''Arn'', JString (str ''arn:aws:iam::123456789012:user/test'')),
              (str ''UserId'', JString (str ''AID...''))]"

definition world_sdk_ok :: "unit world" where
  "world_sdk_ok =
     \<lparr>float_ops = no_floats, dotenv_import = None, load_dotenv_line13 = None,
      load_dotenv_line55 = None, boto3_import = None, get_caller_identity = Inr identity,
      subprocess_run = Inl (Exn FileNotFoundError (str ''aws'')),
      decode_error = (\<lambda>s. Exn OtherException (str ''Expecting value''))\<rparr>"

definition world_sdk_raises :: "exn \<Rightarrow> unit world" where
  "world_sdk_raises x = world_sdk_ok\<lparr>get_caller_identity := Inl x\<rparr>"

definition world_cli :: "exn + completed \<Rightarrow> unit world" where
  "world_cli r =
     world_sdk_ok\<lparr>boto3_import := Some (Exn ModuleNotFoundError (str ''No module named boto3'')),
                   subprocess_run := r\<rparr>"

definition world_no_dotenv :: "unit world" where
  "world_no_dotenv =
     world_sdk_ok\<lparr>dotenv_import := Some (Exn ModuleNotFoundError (str ''No module named dotenv''))\<rparr>"

definition credentials_missing :: completed where
  "credentials_missing =
     \<lparr>returncode = 1, stdout = [], stderr = str ''Unable to locate credentials''\<rparr>"

text \<open>The text \<open>json.dumps(identity, indent=2)\<close> is expected to give, line by line.\<close>

definition quoted :: "string \<Rightarrow> pystr" where
  "quoted s = [0x22] @ str s @ [0x22]"

definition text_lines :: "pystr list \<Rightarrow> pystr" where
  "text_lines ls = concat (map (\<lambda>l. l @ [0x0A]) (butlast ls)) @ last ls"

definition identity_text :: pystr where
  "identity_text =
     text_lines
       [str ''{'',
        str ''  '' @ quoted ''Account'' @ str '': '' @ quoted ''123456789012'' @ str '','',
        str ''  '' @ quoted ''Arn'' @ str '': '' @ quoted ''arn:aws:iam::123456789012:user/test''
          @ str '','',
        str ''  '' @ quoted ''UserId'' @ str '': '' @ quoted ''AID...'',
        str ''}'']"

text \<open>What \<open>aws sts get-caller-identity --output json\<close> leaves when it succeeds.\<close>

definition identity_printed :: completed where
  "identity_printed = \<lparr>returncode = 0, stdout = identity_text @ [0x0A], stderr = []\<rparr>"

section \<open>The orchestration\<close>

lemma failure_texts_distinct:
  "str ''boto3-not-available'' \<noteq> str ''no-credentials''"
  "str ''endpoint-error: '' @ m \<noteq> str ''boto3-not-available''"
  "str ''endpoint-error: '' @ m \<noteq> str ''no-credentials''"
  "str ''client-error: '' @ m \<noteq> str ''boto3-not-available''"
  "str ''client-error: '' @ m \<noteq> str ''no-credentials''"
  "str ''unknown-error: '' @ m \<noteq> str ''boto3-not-available''"
  "str ''unknown-error: '' @ m \<noteq> str ''no-credentials''"
  by (simp_all add: str_def)

text \<open>The guarded call of \<open>load_dotenv\<close> never decides anything in \<open>main\<close>.\<close>

lemma main_unfold:
  "main w e =
     (case check_with_boto3 w of
        Inl x \<Rightarrow> (Uncaught x, e)
      | Inr (Success data) \<Rightarrow>
          (Exit 0,
           print (json_dumps (float_ops w) 2 data) (print (str ''AWS reachable via boto3:'') e))
      | Inr (Failure data) \<Rightarrow>
          if data = str ''boto3-not-available'' then
            (case check_with_awscli w e of
               (Inl x, e1) \<Rightarrow> (Uncaught x, e1)
             | (Inr (Success data2), e1) \<Rightarrow>
                 (Exit 0,
                  print (json_dumps (float_ops w) 2 data2)
                    (print (str ''AWS reachable via aws-cli:'') e1))
             | (Inr (Failure data2), e1) \<Rightarrow>
                 (Exit 3, print (str ''AWS check failed (aws-cli): '' @ data2) e1))
          else if data = str ''no-credentials'' then
            (Exit 2, print (str ''AWS check failed: no credentials available for boto3'') e)
          else (Exit 4, print (str ''AWS check failed (boto3): '' @ data) e))"
  by (simp add: main_def load_dotenv_guarded_def split: option.splits)

text \<open>When line 8 and line 13 go through, the script is \<open>main\<close> from a fresh start.\<close>

lemma script_runs_main:
  "dotenv_import w = None \<Longrightarrow> load_dotenv_line13 w = None \<Longrightarrow> script w = main w start"
  by (simp add: script_def)

lemma sdk_raises_result:
  "check_with_boto3 (world_sdk_raises x) =
     Inr (Failure
       (if cls x = NoCredentialsError then str ''no-credentials''
        else if cls x = EndpointConnectionError then str ''endpoint-error: '' @ msg x
        else if cls x = ClientError then str ''client-error: '' @ msg x
        else str ''unknown-error: '' @ msg x))"
  by (simp add: check_with_boto3_def world_sdk_raises_def world_sdk_ok_def)

lemma sdk_ok_result: "check_with_boto3 world_sdk_ok = Inr (Success identity)"
  by (simp add: check_with_boto3_def world_sdk_ok_def)

lemma cli_world_result: "check_with_boto3 (world_cli r) = Inr (Failure (str ''boto3-not-available''))"
  by (simp add: check_with_boto3_def world_cli_def world_sdk_ok_def)

text \<open>
  How \<open>main\<close> ends: with \<open>sys.exit\<close> of 0, 2, 3 or 4, or, without boto3, with the
  exception of \<open>subprocess.run\<close> that is not a \<open>FileNotFoundError\<close>.
\<close>

lemma main_sys_exit_codes:
  "(\<forall>c. fst (main w e) = Exit c \<longrightarrow> c \<in> {0, 2, 3, 4}) \<and> fst (main w e) \<noteq> Exit 1"
  by (auto simp: main_unfold split: sum.splits check.splits if_splits prod.splits)

lemma main_endings:
  "(\<exists>c \<in> {0, 2, 3, 4}. fst (main w e) = Exit c) \<or>
   (\<exists>x. fst (main w e) = Uncaught x \<and> boto3_import w \<noteq> None
      \<and> subprocess_run w = Inl x \<and> cls x \<noteq> FileNotFoundError)"
  by (auto simp: main_unfold check_with_boto3_def check_with_awscli_def Let_def
      failure_texts_distinct failure_texts_distinct [symmetric]
      split: sum.splits check.splits if_splits prod.splits option.splits)

lemma boto3_imported_result:
  "boto3_import w = None \<Longrightarrow> check_with_boto3 w \<noteq> Inr (Failure (str ''boto3-not-available''))"
  by (auto simp: check_with_boto3_def failure_texts_distinct failure_texts_distinct [symmetric]
      split: sum.splits)

text \<open>
  Claim C2. When the result of the primary path is anything but the failure
  \<open>boto3-not-available\<close>, \<open>main\<close> makes no call of \<open>subprocess.run\<close>: the number of calls
  after the run is the number before it. That is so whenever boto3 was imported, whatever
  the STS call did.
\<close>

theorem fallback_not_invoked:
  "(check_with_boto3 w \<noteq> Inr (Failure (str ''boto3-not-available'')) \<longrightarrow>
      run_calls (snd (main w e)) = run_calls e) \<and>
   (boto3_import w = None \<longrightarrow> run_calls (snd (main w e)) = run_calls e)"
  using boto3_imported_result [of w]
  by (auto simp: main_unfold print_def split: sum.splits check.splits)

theorem fallback_not_invoked_witness:
  "check_with_boto3 (world_sdk_raises (Exn ClientError (str ''AccessDenied'')))
     \<noteq> Inr (Failure (str ''boto3-not-available''))
   \<and> run_calls (snd (main (world_sdk_raises (Exn ClientError (str ''AccessDenied''))) start)) = 0"
proof -
  have h: "check_with_boto3 (world_sdk_raises (Exn ClientError (str ''AccessDenied'')))
             \<noteq> Inr (Failure (str ''boto3-not-available''))"
    by (simp add: sdk_raises_result failure_texts_distinct)
  from fallback_not_invoked [of "world_sdk_raises (Exn ClientError (str ''AccessDenied''))" start] h
  show ?thesis by (simp add: start_def)
qed

lemma strip_credentials: "strip (str ''Unable to locate credentials'') = str ''Unable to locate credentials''"
  by (simp add: strip_def str_def isspace_def)

lemma cli_credentials_missing:
  "check_with_awscli (world_cli (Inr credentials_missing)) e =
     (Inr (Failure (str ''aws-cli-error: Unable to locate credentials'')), e\<lparr>run_calls := run_calls e + 1\<rparr>)"
  by (simp add: check_with_awscli_def world_cli_def world_sdk_ok_def credentials_missing_def
      strip_credentials Let_def) (simp add: str_def)

lemma cli_raises:
  "cls x \<noteq> FileNotFoundError \<Longrightarrow>
   check_with_awscli (world_cli (Inl x)) e = (Inl x, e\<lparr>run_calls := run_calls e + 1\<rparr>)"
  by (simp add: check_with_awscli_def Let_def world_cli_def world_sdk_ok_def)

text \<open>
  Claim C8. When the STS call raises \<open>NoCredentialsError\<close>, \<open>main\<close> prints the one line
  \<open>AWS check failed: no credentials available for boto3\<close>, exits with code 2 and makes no
  call of \<open>subprocess.run\<close>, whatever that call would have done.
\<close>

theorem no_credentials_run:
  "boto3_import w = None \<Longrightarrow> get_caller_identity w = Inl x \<Longrightarrow> cls x = NoCredentialsError \<Longrightarrow>
   main w start =
     (Exit 2,
      \<lparr>printed = [str ''AWS check failed: no credentials available for boto3''], run_calls = 0\<rparr>)"
  by (simp add: main_unfold check_with_boto3_def failure_texts_distinct [symmetric] print_def start_def)

theorem no_credentials_run_witness:
  "main (world_sdk_raises (Exn NoCredentialsError (str ''Unable to locate credentials''))) start =
     (Exit 2,
      \<lparr>printed = [str ''AWS check failed: no credentials available for boto3''], run_calls = 0\<rparr>)"
  using no_credentials_run
    [of "world_sdk_raises (Exn NoCredentialsError (str ''Unable to locate credentials''))"
        "Exn NoCredentialsError (str ''Unable to locate credentials'')"]
  by (simp add: world_sdk_raises_def world_sdk_ok_def)

text \<open>
  Claim C3, as the script behaves. Without boto3, when the \<open>aws\<close> process exits with status
  1 and the standard error \<open>Unable to locate credentials\<close>, \<open>main\<close> prints the one line
  \<open>AWS check failed (aws-cli): aws-cli-error: Unable to locate credentials\<close> and exits with
  code 3: the failure text of \<open>check_with_awscli\<close> carries its category \<open>aws-cli-error: \<close>,
  and \<open>main\<close> prints the whole text. The line of the claim, without the category, is not
  what is printed.
\<close>

theorem fallback_credentials_missing_run:
  "boto3_import w = Some x \<Longrightarrow> subprocess_run w = Inr proc \<Longrightarrow> returncode proc = 1 \<Longrightarrow>
   stderr proc = str ''Unable to locate credentials'' \<Longrightarrow>
   main w start =
     (Exit 3,
      \<lparr>printed = [str ''AWS check failed (aws-cli): aws-cli-error: Unable to locate credentials''],
       run_calls = 1\<rparr>)"
  by (simp add: main_unfold check_with_boto3_def check_with_awscli_def Let_def strip_credentials
      print_def start_def) (simp add: str_def)

theorem fallback_credentials_missing_run_witness:
  "main (world_cli (Inr credentials_missing)) start =
     (Exit 3,
      \<lparr>printed = [str ''AWS check failed (aws-cli): aws-cli-error: Unable to locate credentials''],
       run_calls = 1\<rparr>)"
  using fallback_credentials_missing_run
    [of "world_cli (Inr credentials_missing)"
        "Exn ModuleNotFoundError (str ''No module named boto3'')" credentials_missing]
  by (simp add: world_cli_def world_sdk_ok_def credentials_missing_def)

theorem fallback_credentials_missing_counterexample:
  "printed (snd (main (world_cli (Inr credentials_missing)) start))
     \<noteq> [str ''AWS check failed (aws-cli): Unable to locate credentials'']"
  by (simp add: main_unfold cli_world_result cli_credentials_missing print_def start_def)
    (simp add: str_def)

text \<open>
  Claim C7. \<open>check_with_boto3\<close> returns \<open>boto3-not-available\<close> when the import fails,
  the response when the call succeeds, \<open>no-credentials\<close>, \<open>endpoint-error\<close> or
  \<open>client-error\<close> with the message for the three botocore exceptions, and \<open>unknown-error\<close>
  with the message for any other exception; it never raises, and the six results are
  pairwise different.
\<close>

theorem check_with_boto3_cases:
  "(boto3_import w \<noteq> None \<longrightarrow>
      check_with_boto3 w = Inr (Failure (str ''boto3-not-available''))) \<and>
   (boto3_import w = None \<and> get_caller_identity w = Inr resp \<longrightarrow>
      check_with_boto3 w = Inr (Success resp)) \<and>
   (boto3_import w = None \<and> get_caller_identity w = Inl x \<and> cls x = NoCredentialsError \<longrightarrow>
      check_with_boto3 w = Inr (Failure (str ''no-credentials''))) \<and>
   (boto3_import w = None \<and> get_caller_identity w = Inl x \<and> cls x = EndpointConnectionError \<longrightarrow>
      check_with_boto3 w = Inr (Failure (str ''endpoint-error: '' @ msg x))) \<and>
   (boto3_import w = None \<and> get_caller_identity w = Inl x \<and> cls x = ClientError \<longrightarrow>
      check_with_boto3 w = Inr (Failure (str ''client-error: '' @ msg x))) \<and>
   (boto3_import w = None \<and> get_caller_identity w = Inl x \<and> cls x \<noteq> NoCredentialsError
      \<and> cls x \<noteq> EndpointConnectionError \<and> cls x \<noteq> ClientError \<longrightarrow>
      check_with_boto3 w = Inr (Failure (str ''unknown-error: '' @ msg x))) \<and>
   (\<exists>r. check_with_boto3 w = Inr r) \<and>
   distinct [Failure (str ''boto3-not-available''), Failure (str ''no-credentials''),
             Failure (str ''endpoint-error: '' @ m1), Failure (str ''client-error: '' @ m2),
             Failure (str ''unknown-error: '' @ m3), Success p]"
  by (auto simp: check_with_boto3_def str_def split: option.splits sum.splits)

theorem check_with_boto3_cases_witness:
  "check_with_boto3 (world_sdk_raises (Exn EndpointConnectionError (str ''timed out'')))
     = Inr (Failure (str ''endpoint-error: timed out''))"
  using check_with_boto3_cases
    [of "world_sdk_raises (Exn EndpointConnectionError (str ''timed out''))" identity
        "Exn EndpointConnectionError (str ''timed out'')"]
  by (simp add: world_sdk_raises_def world_sdk_ok_def) (simp add: str_def)



text \<open>
  Claim C4, at the inputs where the script fails it. Without python-dotenv the import of
  line 8 raises outside every \<open>try\<close> and the script ends with that exception, before
  \<open>main\<close> and its guarded call of \<open>load_dotenv\<close> are reached. Without boto3, an exception
  of \<open>subprocess.run\<close> other than \<open>FileNotFoundError\<close> leaves \<open>check_with_awscli\<close> and
  \<open>main\<close> uncaught.
\<close>

theorem script_aborts:
  "script world_no_dotenv =
     (Uncaught (Exn ModuleNotFoundError (str ''No module named dotenv'')), start)
   \<and> main (world_cli (Inl (Exn OtherException (str ''Permission denied'')))) start =
     (Uncaught (Exn OtherException (str ''Permission denied'')), \<lparr>printed = [], run_calls = 1\<rparr>)"
proof
  show "script world_no_dotenv =
     (Uncaught (Exn ModuleNotFoundError (str ''No module named dotenv'')), start)"
    by (simp add: script_def world_no_dotenv_def world_sdk_ok_def)
  show "main (world_cli (Inl (Exn OtherException (str ''Permission denied'')))) start =
     (Uncaught (Exn OtherException (str ''Permission denied'')), \<lparr>printed = [], run_calls = 1\<rparr>)"
    by (simp add: main_unfold cli_world_result cli_raises start_def)
qed

text \<open>
  Claim C10, at the input where the script fails it. Without boto3, when \<open>subprocess.run\<close>
  raises an exception that is not a \<open>FileNotFoundError\<close> (the \<open>aws\<close> on the path is not
  executable), \<open>main\<close> reaches no \<open>sys.exit\<close>: the exception leaves it uncaught after
  one call of \<open>subprocess.run\<close> and nothing printed, and the process ends with exit status
  1, which is none of 0, 2, 3 and 4.
\<close>

theorem main_exit_status_one:
  "fst (main (world_cli (Inl (Exn OtherException (str ''Permission denied'')))) start)
     = Uncaught (Exn OtherException (str ''Permission denied''))
   \<and> exit_status (fst (main (world_cli (Inl (Exn OtherException (str ''Permission denied''))))
         start)) = 1
   \<and> exit_status (fst (main (world_cli (Inl (Exn OtherException (str ''Permission denied''))))
         start)) \<notin> {0, 2, 3, 4}"
proof -
  have "fst (main (world_cli (Inl (Exn OtherException (str ''Permission denied'')))) start)
          = Uncaught (Exn OtherException (str ''Permission denied''))"
    by (simp add: main_unfold cli_world_result cli_raises)
  then show ?thesis by (simp add: exit_status_def)
qed

section \<open>What json.loads reads back from json.dumps\<close>

text \<open>
  From here on the equations of the scanner are applied one step at a time, through the
  lemmas below.
\<close>

declare scanstring.simps [simp del]
declare scan_once.simps [simp del] parse_array.simps [simp del] parse_object.simps [simp del]

text \<open>
  Every value read takes at least one character, so the length tests in \<open>parse_array\<close>
  and \<open>parse_object\<close> never fail: both loops satisfy their equations without the tests.
\<close>

lemma dropWhile_length: "length (dropWhile P xs) \<le> length xs"
  by (simp add: length_dropWhile_le)

lemma match_integer_shorter: "match_integer s = Some (i, r) \<Longrightarrow> length r < length s"
  using dropWhile_length [of is_digit "tl (tl s)"] dropWhile_length [of is_digit "tl s"]
  by (cases s; cases "tl s")
    (auto simp: match_integer_def split: if_splits list.splits)

lemma match_frac_shorter: "match_frac s = (f, r) \<Longrightarrow> length r \<le> length s"
  using dropWhile_length [of is_digit "tl (tl s)"]
  by (auto simp: match_frac_def split: if_splits list.splits)

lemma match_exp_shorter: "match_exp s = (e, r) \<Longrightarrow> length r \<le> length s"
  using dropWhile_length [of is_digit "tl (tl s)"] dropWhile_length [of is_digit "tl (tl (tl s))"]
  by (cases s; cases "tl s")
    (auto simp: match_exp_def Let_def split: if_splits list.splits)

lemma match_number_shorter: "match_number s = Some (i, f, e, r) \<Longrightarrow> length r < length s"
  by (auto simp: match_number_def split: option.splits prod.splits
      dest!: match_integer_shorter match_frac_shorter match_exp_shorter)

lemma scan_once_shorter:
  "scan_once fl s = Some (v, r) \<Longrightarrow> length r < length s"
  and parse_array_shorter:
  "parse_array fl s = Some (vs, r1) \<Longrightarrow> length r1 < length s"
  and parse_object_shorter:
  "parse_object fl s = Some (ps, r2) \<Longrightarrow> length r2 < length s"
proof (induction fl s and fl s and fl s arbitrary: v r and vs r1 and ps r2
    rule: scan_once_parse_array_parse_object.induct)
  case (1 fl)
  then show ?case by (simp add: scan_once.simps)
next
  case (2 fl c s)
  from "2.prems" show ?case
    apply (subst (asm) scan_once.simps)
    apply (auto split: if_splits option.splits list.splits prod.splits
        dest!: scanstring_shorter match_number_shorter
        dest: skip_ws_Cons_length)
    subgoal for s1 ps
      using "2.IH"(1) [of "0x22" s1 ps r] skip_ws_Cons_length [of s "0x22" s1] by simp
    subgoal for d s1 xs
      using "2.IH"(2) [of d s1 xs r] skip_ws_Cons_length [of s d s1] by simp
    done
next
  case (3 fl s)
  from "3.prems" obtain v r where so: "scan_once fl s = Some (v, r)" and g: "length r < length s"
    and rest: "(case skip_ws r of
        [] \<Rightarrow> None
      | d # r1 \<Rightarrow>
          if d = 0x5D then Some ([v], r1)
          else if d = 0x2C then
            (case parse_array fl (skip_ws r1) of
               None \<Rightarrow> None
             | Some (vs, r2) \<Rightarrow> Some (v # vs, r2))
          else None) = Some (vs, r1)"
    by (subst (asm) parse_array.simps) (auto split: option.splits if_splits)
  from rest obtain d r' where sk: "skip_ws r = d # r'"
    by (cases "skip_ws r") auto
  have l1: "length r' < length r" using sk by (rule skip_ws_Cons_length)
  show ?case
  proof (cases "d = 0x5D")
    case True
    with rest sk l1 g show ?thesis by simp
  next
    case False
    with rest sk obtain vs' where d: "d = 0x2C"
      and pa: "parse_array fl (skip_ws r') = Some (vs', r1)"
      by (auto split: if_splits option.splits)
    have "length r1 < length (skip_ws r')"
      using "3.IH"(2) so g sk False d pa by blast
    with skip_ws_length [of r'] l1 g show ?thesis by simp
  qed
next
  case (4 fl s)
  from "4.prems" obtain key r0 c r1 v r3 where ss: "scanstring s = Some (key, r0)"
    and sk0: "skip_ws r0 = c # r1" and c: "c = 0x3A"
    and so: "scan_once fl (skip_ws r1) = Some (v, r3)"
    and g: "length r3 < length (skip_ws r1)"
    and rest: "(case skip_ws r3 of
        [] \<Rightarrow> None
      | d # r4 \<Rightarrow>
          if d = 0x7D then Some ([(key, v)], r4)
          else if d = 0x2C then
            (case skip_ws r4 of
               [] \<Rightarrow> None
             | q # r5 \<Rightarrow>
                 if q \<noteq> 0x22 then None
                 else
                   (case parse_object fl r5 of
                      None \<Rightarrow> None
                    | Some (pairs, r6) \<Rightarrow> Some ((key, v) # pairs, r6)))
          else None) = Some (ps, r2)"
    by (subst (asm) parse_object.simps) (auto split: option.splits if_splits list.splits)
  have l0: "length r3 < length s"
    using scanstring_shorter [OF ss] skip_ws_Cons_length [OF sk0] skip_ws_length [of r1] g
    by simp
  from rest obtain d r4 where sk3: "skip_ws r3 = d # r4"
    by (cases "skip_ws r3") auto
  have l3: "length r4 < length r3" using sk3 by (rule skip_ws_Cons_length)
  show ?case
  proof (cases "d = 0x7D")
    case True
    with rest sk3 l3 l0 show ?thesis by simp
  next
    case False
    with rest sk3 obtain q r5 pairs where d: "d = 0x2C" and sk4: "skip_ws r4 = q # r5"
      and q: "q = 0x22" and po: "parse_object fl r5 = Some (pairs, r2)"
      by (auto split: if_splits option.splits list.splits)
    have "length r2 < length r5"
      using "4.IH"(2) ss sk0 c so g sk3 False d sk4 q po by blast
    with skip_ws_Cons_length [OF sk4] l3 l0 show ?thesis by simp
  qed
qed


lemma parse_array_loop:
  "parse_array fl s =
     (case scan_once fl s of
        None \<Rightarrow> None
      | Some (v, r) \<Rightarrow>
          (case skip_ws r of
             [] \<Rightarrow> None
           | d # r1 \<Rightarrow>
               if d = 0x5D then Some ([v], r1)
               else if d = 0x2C then
                 (case parse_array fl (skip_ws r1) of
                    None \<Rightarrow> None
                  | Some (vs, r2) \<Rightarrow> Some (v # vs, r2))
               else None))"
  by (subst parse_array.simps) (auto split: option.splits dest: scan_once_shorter)

lemma parse_object_loop:
  "parse_object fl s =
     (case scanstring s of
        None \<Rightarrow> None
      | Some (key, r0) \<Rightarrow>
          (case skip_ws r0 of
             [] \<Rightarrow> None
           | c # r1 \<Rightarrow>
               if c \<noteq> 0x3A then None
               else
                 (case scan_once fl (skip_ws r1) of
                    None \<Rightarrow> None
                  | Some (v, r2) \<Rightarrow>
                      (case skip_ws r2 of
                         [] \<Rightarrow> None
                       | d # r3 \<Rightarrow>
                           if d = 0x7D then Some ([(key, v)], r3)
                           else if d = 0x2C then
                             (case skip_ws r3 of
                                [] \<Rightarrow> None
                              | q # r4 \<Rightarrow>
                                  if q \<noteq> 0x22 then None
                                  else
                                    (case parse_object fl r4 of
                                       None \<Rightarrow> None
                                     | Some (pairs, r5) \<Rightarrow> Some ((key, v) # pairs, r5)))
                           else None))))"
  by (subst parse_object.simps) (auto split: option.splits list.splits dest: scan_once_shorter)

lemma hexval_hexdigit: "d < 16 \<Longrightarrow> hexval (hexdigit d) = Some d"
  by (auto simp: hexval_def hexdigit_def)

lemma hex4_value:
  fixes n :: nat
  assumes "n < 65536"
  shows "((n div 4096 mod 16 * 16 + n div 256 mod 16) * 16 + n div 16 mod 16) * 16 + n mod 16 = n"
proof -
  define A B C D E F where "A = n div 4096" and "B = n div 256 mod 16"
    and "C = n div 16 mod 16" and "D = n mod 16" and "E = n div 256" and "F = n div 16"
  have a: "n div 4096 mod 16 = A"
    using assms by (simp add: A_def less_mult_imp_div_less)
  have b: "E = 16 * A + B"
    using div_mult2_eq [of n 256 16] by (simp add: A_def B_def E_def)
  have c: "F = 16 * E + C"
    using div_mult2_eq [of n 16 16] by (simp add: C_def E_def F_def)
  have d: "n = 16 * F + D" by (simp add: D_def F_def)
  have "((A * 16 + B) * 16 + C) * 16 + D = n"
    using b c d by simp
  then show ?thesis
    unfolding a A_def B_def C_def D_def by simp
qed

lemma decode_hex4: "n < 65536 \<Longrightarrow> decode_uXXXX (hex4 n @ s) = Some n"
  using hex4_value [of n] by (simp add: hex4_def hexval_hexdigit)

lemma drop_hex4 [simp]: "drop 4 (hex4 n @ s) = s"
  by (simp add: hex4_def)

lemma take_drop_hex4 [simp]: "take 2 (drop 4 (hex4 n @ a # b # s)) = [a, b]"
  by (simp add: hex4_def)

lemma drop6_hex4 [simp]: "drop 6 (hex4 n @ a # b # s) = s"
  by (simp add: hex4_def)

lemma drop10_hex4 [simp]: "drop 10 (hex4 n @ a # b # hex4 m @ s) = s"
  by (simp add: hex4_def)

lemma scanstring_quote: "scanstring (0x22 # s) = Some ([], s)"
  by (subst scanstring.simps) simp

lemma scanstring_short:
  "backslash e = Some ch \<Longrightarrow> e \<noteq> 0x75 \<Longrightarrow>
   scanstring (0x5C # e # s) =
     (case scanstring s of None \<Rightarrow> None | Some (t, r) \<Rightarrow> Some (ch # t, r))"
  by (subst scanstring.simps) simp

lemma scanstring_plain:
  "c \<noteq> 0x22 \<Longrightarrow> c \<noteq> 0x5C \<Longrightarrow> 0x20 \<le> c \<Longrightarrow>
   scanstring (c # s) =
     (case scanstring s of None \<Rightarrow> None | Some (t, r) \<Rightarrow> Some (c # t, r))"
  by (subst scanstring.simps) simp

lemma scanstring_u_single:
  "decode_uXXXX s1 = Some uni \<Longrightarrow> uni < 0xD800 \<or> 0xDBFF < uni \<Longrightarrow>
   scanstring (0x5C # 0x75 # s1) =
     (case scanstring (drop 4 s1) of None \<Rightarrow> None | Some (t, r) \<Rightarrow> Some (uni # t, r))"
  by (subst scanstring.simps) auto

lemma scanstring_u_pair:
  "decode_uXXXX s1 = Some uni \<Longrightarrow> 0xD800 \<le> uni \<Longrightarrow> uni \<le> 0xDBFF \<Longrightarrow>
   take 2 (drop 4 s1) = [0x5C, 0x75] \<Longrightarrow> decode_uXXXX (drop 6 s1) = Some uni2 \<Longrightarrow>
   0xDC00 \<le> uni2 \<Longrightarrow> uni2 \<le> 0xDFFF \<Longrightarrow>
   scanstring (0x5C # 0x75 # s1) =
     (case scanstring (drop 10 s1) of
        None \<Rightarrow> None
      | Some (t, r) \<Rightarrow> Some ((0x10000 + ((uni - 0xD800) * 1024 + (uni2 - 0xDC00))) # t, r))"
  by (subst scanstring.simps) simp

lemma length_hex4 [simp]: "length (hex4 n) = 4"
  by (simp add: hex4_def)

lemma scanstring_u_escape:
  assumes "n < 65536" "n < 0xD800 \<or> 0xDBFF < n"
  shows "scanstring (u_escape n @ s) =
           (case scanstring s of None \<Rightarrow> None | Some (t, r) \<Rightarrow> Some (n # t, r))"
  using scanstring_u_single [OF decode_hex4 [OF assms(1)] assms(2), of s]
  by (simp add: u_escape_def)

lemma scanstring_surrogate_pair:
  assumes "n < 0x100000"
  shows "scanstring (u_escape (0xD800 + n div 1024 mod 1024) @ u_escape (0xDC00 + n mod 1024) @ s) =
           (case scanstring s of None \<Rightarrow> None | Some (t, r) \<Rightarrow> Some ((0x10000 + n) # t, r))"
proof -
  define h l where "h = 0xD800 + n div 1024 mod 1024" and "l = 0xDC00 + n mod 1024"
  have hi: "n div 1024 mod 1024 = n div 1024" "n div 1024 < 1024"
    using assms by (simp_all add: less_mult_imp_div_less)
  have hb: "h < 65536" "0xD800 \<le> h" "h \<le> 0xDBFF"
    using hi by (simp_all add: h_def)
  have lb: "l < 65536" "0xDC00 \<le> l" "l \<le> 0xDFFF"
    by (simp_all add: l_def)
  have val: "(h - 0xD800) * 1024 + (l - 0xDC00) = n"
    using hi by (simp add: h_def l_def)
  let ?s1 = "hex4 h @ 0x5C # 0x75 # hex4 l @ s"
  have "scanstring (0x5C # 0x75 # ?s1) =
          (case scanstring (drop 10 ?s1) of
             None \<Rightarrow> None
           | Some (t, r) \<Rightarrow> Some ((0x10000 + ((h - 0xD800) * 1024 + (l - 0xDC00))) # t, r))"
    by (rule scanstring_u_pair [where uni = h and ?uni2.0 = l])
      (simp_all add: decode_hex4 hb lb)
  then show ?thesis
    unfolding val h_def [symmetric] l_def [symmetric] by (simp add: u_escape_def)
qed

lemma scanstring_escape_char:
  assumes "scalar c"
  shows "scanstring (escape_char c @ s) =
           (case scanstring s of None \<Rightarrow> None | Some (t, r) \<Rightarrow> Some (c # t, r))"
proof -
  consider (short) "c = 0x5C \<or> c = 0x22 \<or> c = 0x08 \<or> c = 0x0C \<or> c = 0x0A \<or> c = 0x0D \<or> c = 0x09"
    | (plain) "c \<noteq> 0x5C" "c \<noteq> 0x22" "0x20 \<le> c" "c \<le> 0x7E"
    | (bmp) "c < 0x20 \<or> 0x7E < c" "c \<noteq> 0x08" "c \<noteq> 0x0C" "c \<noteq> 0x0A" "c \<noteq> 0x0D" "c \<noteq> 0x09"
        "c < 0x10000"
    | (astral) "0x10000 \<le> c"
    by linarith
  then show ?thesis
  proof cases
    case short
    then show ?thesis
      by (elim disjE; hypsubst) (simp_all add: escape_char_def scanstring_short backslash_def)
  next
    case plain
    then show ?thesis
      by (simp add: escape_char_def scanstring_plain)
  next
    case bmp
    from assms bmp have r: "c < 0xD800 \<or> 0xDBFF < c" by (auto simp: scalar_def)
    have e: "escape_char c = u_escape c"
      using bmp by (auto simp: escape_char_def)
    show ?thesis
      unfolding e using bmp(7) r by (rule scanstring_u_escape)
  next
    case astral
    with assms have b: "c - 0x10000 < 0x100000" by (simp add: scalar_def)
    have e: "escape_char c =
        u_escape (0xD800 + (c - 0x10000) div 1024 mod 1024) @ u_escape (0xDC00 + (c - 0x10000) mod 1024)"
      using astral by (simp add: escape_char_def Let_def)
    have v: "0x10000 + (c - 0x10000) = c" using astral by simp
    show ?thesis
      unfolding e using scanstring_surrogate_pair [OF b, of s] unfolding v by simp
  qed
qed

lemma scanstring_escaped:
  "\<forall>c \<in> set t. scalar c \<Longrightarrow>
   scanstring (concat (map escape_char t) @ 0x22 # s) = Some (t, s)"
  by (induction t) (simp_all add: scanstring_escape_char scanstring_quote)

lemma dec_digits_all: "\<forall>c \<in> set (dec_digits n). is_digit c"
proof (induction n rule: dec_digits.induct)
  case (1 n)
  have "n mod 10 < 10" by simp
  with 1 show ?case
    by (subst dec_digits.simps) (auto simp: is_digit_def)
qed

lemma dec_digits_value: "digits_value (dec_digits n) = n"
proof (induction n rule: dec_digits.induct)
  case (1 n)
  show ?case
  proof (cases "n < 10")
    case True
    then show ?thesis
      by (subst dec_digits.simps) (simp add: digits_value_def)
  next
    case False
    with 1 have "digits_value (dec_digits (n div 10)) = n div 10" by simp
    with False show ?thesis
      by (subst dec_digits.simps) (simp add: digits_value_def)
  qed
qed

lemma dec_digits_head:
  "\<exists>d ds. dec_digits n = d # ds \<and> is_digit d \<and> (d = 0x30 \<longrightarrow> ds = [])"
proof (induction n rule: dec_digits.induct)
  case (1 n)
  show ?case
  proof (cases "n < 10")
    case True
    then show ?thesis
      by (subst dec_digits.simps) (simp add: is_digit_def)
  next
    case False
    with 1 obtain d ds where h: "dec_digits (n div 10) = d # ds" "is_digit d" "d = 0x30 \<longrightarrow> ds = []"
      by blast
    have nz: "d \<noteq> 0x30"
    proof
      assume "d = 0x30"
      with h have "dec_digits (n div 10) = [0x30]" by simp
      then have "digits_value (dec_digits (n div 10)) = 0" by (simp add: digits_value_def)
      then have "n div 10 = 0" by (simp add: dec_digits_value)
      with False show False by simp
    qed
    from False h nz show ?thesis
      by (subst dec_digits.simps) simp
  qed
qed

lemma takeWhile_digits:
  "\<forall>c \<in> set ds. is_digit c \<Longrightarrow> tail_ok r \<Longrightarrow>
   takeWhile is_digit (ds @ r) = ds \<and> dropWhile is_digit (ds @ r) = r"
  by (induction ds) (auto simp: tail_ok_def split: list.splits)

lemma match_integer_digits:
  assumes "tail_ok r"
  shows "match_integer (dec_digits n @ r) = Some (dec_digits n, r)"
proof -
  obtain d ds where h: "dec_digits n = d # ds" "is_digit d" "d = 0x30 \<longrightarrow> ds = []"
    using dec_digits_head by blast
  have a: "\<forall>c \<in> set ds. is_digit c" using dec_digits_all [of n] h by simp
  have m: "d \<noteq> 0x2D" using h(2) by (simp add: is_digit_def)
  show ?thesis
    using h m takeWhile_digits [OF a assms]
    by (auto simp: match_integer_def)
qed

lemma match_integer_negative:
  assumes "tail_ok r"
  shows "match_integer (0x2D # dec_digits n @ r) = Some (0x2D # dec_digits n, r)"
proof -
  obtain d ds where h: "dec_digits n = d # ds" "is_digit d" "d = 0x30 \<longrightarrow> ds = []"
    using dec_digits_head by blast
  have a: "\<forall>c \<in> set ds. is_digit c" using dec_digits_all [of n] h by simp
  show ?thesis
    using h takeWhile_digits [OF a assms]
    by (auto simp: match_integer_def)
qed

lemma no_frac_exp: "tail_ok r \<Longrightarrow> match_frac r = ([], r) \<and> match_exp r = ([], r)"
  by (auto simp: tail_ok_def match_frac_def match_exp_def split: list.splits)

lemma match_number_int_repr:
  "tail_ok r \<Longrightarrow> match_number (int_repr i @ r) = Some (int_repr i, [], [], r)"
  by (simp add: match_number_def int_repr_def match_integer_digits match_integer_negative
      no_frac_exp)

lemma parse_int_repr: "parse_int (int_repr i) = i"
proof (cases "i < 0")
  case True
  then show ?thesis by (simp add: parse_int_def int_repr_def dec_digits_value)
next
  case False
  obtain d ds where h: "dec_digits (nat i) = d # ds" "is_digit d"
    using dec_digits_head by blast
  then have "take 1 (dec_digits (nat i)) \<noteq> [0x2D]" by (simp add: is_digit_def)
  with False show ?thesis by (simp add: parse_int_def int_repr_def dec_digits_value)
qed

lemma scan_once_string:
  "scan_once fl (0x22 # s) =
     (case scanstring s of None \<Rightarrow> None | Some (t, r) \<Rightarrow> Some (JString t, r))"
  by (subst scan_once.simps) simp

lemma scan_once_object:
  "skip_ws s = 0x22 # s1 \<Longrightarrow>
   scan_once fl (0x7B # s) =
     (case parse_object fl s1 of None \<Rightarrow> None | Some (pairs, r) \<Rightarrow> Some (JObject (dict pairs), r))"
  by (subst scan_once.simps) simp

lemma scan_once_array:
  "skip_ws s = d # s1 \<Longrightarrow> d \<noteq> 0x5D \<Longrightarrow>
   scan_once fl (0x5B # s) =
     (case parse_array fl (d # s1) of None \<Rightarrow> None | Some (vs, r) \<Rightarrow> Some (JArray vs, r))"
  by (subst scan_once.simps) simp

lemma scan_once_literals:
  "scan_once fl (str ''null'' @ r) = Some (JNull, r)"
  "scan_once fl (str ''true'' @ r) = Some (JBool True, r)"
  "scan_once fl (str ''false'' @ r) = Some (JBool False, r)"
  "scan_once fl (str ''[]'' @ r) = Some (JArray [], r)"
  "scan_once fl (str ''{}'' @ r) = Some (JObject [], r)"
  by (simp_all add: str_def scan_once.simps skip_ws_def is_ws_def)

lemma scan_once_int:
  assumes "c = 0x2D \<or> is_digit c" "match_number (c # s) = Some (i, [], [], r)"
  shows "scan_once fl (c # s) = Some (JInt (parse_int i), r)"
proof -
  from assms(1) have "c \<noteq> 0x22" "c \<noteq> 0x7B" "c \<noteq> 0x5B" "c \<noteq> 0x6E" "c \<noteq> 0x74" "c \<noteq> 0x66"
    by (auto simp: is_digit_def)
  with assms(2) show ?thesis
    by (subst scan_once.simps) simp
qed

lemma parse_array_step:
  "scan_once fl s = Some (v, r) \<Longrightarrow> length r < length s \<Longrightarrow>
   parse_array fl s =
     (case skip_ws r of
        [] \<Rightarrow> None
      | d # r1 \<Rightarrow>
          if d = 0x5D then Some ([v], r1)
          else if d = 0x2C then
            (case parse_array fl (skip_ws r1) of
               None \<Rightarrow> None
             | Some (vs, r2) \<Rightarrow> Some (v # vs, r2))
          else None)"
  by (subst parse_array.simps) simp

lemma parse_object_step:
  "scanstring s = Some (key, r0) \<Longrightarrow> skip_ws r0 = 0x3A # r1 \<Longrightarrow>
   scan_once fl (skip_ws r1) = Some (v, r2) \<Longrightarrow> length r2 < length (skip_ws r1) \<Longrightarrow>
   parse_object fl s =
     (case skip_ws r2 of
        [] \<Rightarrow> None
      | d # r3 \<Rightarrow>
          if d = 0x7D then Some ([(key, v)], r3)
          else if d = 0x2C then
            (case skip_ws r3 of
               [] \<Rightarrow> None
             | q # r4 \<Rightarrow>
                 if q \<noteq> 0x22 then None
                 else
                   (case parse_object fl r4 of
                      None \<Rightarrow> None
                    | Some (pairs, r5) \<Rightarrow> Some ((key, v) # pairs, r5)))
          else None)"
  by (subst parse_object.simps) simp

lemma skip_ws_newline_indent [simp]: "skip_ws (newline_indent ind k @ s) = skip_ws s"
  by (simp add: newline_indent_def skip_ws_def is_ws_def dropWhile_append)

lemma skip_ws_Cons: "\<not> is_ws c \<Longrightarrow> skip_ws (c # s) = c # s"
  by (simp add: skip_ws_def)

lemma update_fresh: "k \<notin> fst ` set al \<Longrightarrow> AList.update k v al = al @ [(k, v)]"
  by (induction al) auto

lemma foldl_update_distinct:
  "distinct (map fst (acc @ kvs)) \<Longrightarrow>
   foldl (\<lambda>d (k, v). AList.update k v d) acc kvs = acc @ kvs"
proof (induction kvs arbitrary: acc)
  case Nil
  then show ?case by simp
next
  case (Cons p kvs)
  obtain k v where p: "p = (k, v)" by (cases p)
  from Cons.prems p have "k \<notin> fst ` set acc" by auto
  then have u: "AList.update k v acc = acc @ [(k, v)]" by (rule update_fresh)
  from Cons.prems p have "distinct (map fst ((acc @ [(k, v)]) @ kvs))" by simp
  from Cons.IH [OF this] show ?case by (simp add: p u)
qed

lemma dict_distinct: "distinct (map fst kvs) \<Longrightarrow> dict kvs = kvs"
  using foldl_update_distinct [of "[]" kvs] by (simp add: dict_def)

lemma int_repr_head: "\<exists>c t. int_repr i = c # t \<and> (c = 0x2D \<or> is_digit c)"
  using dec_digits_head [of "nat i"] by (auto simp: int_repr_def)

lemma iterencode_head:
  "valid_json v \<Longrightarrow> \<exists>c t. iterencode fl ind level v = c # t \<and> value_head c"
proof (cases v)
  case (JInt i)
  obtain c t where "int_repr i = c # t" "c = 0x2D \<or> is_digit c"
    using int_repr_head by blast
  with JInt show ?thesis
    by (auto simp: value_head_def is_ws_def is_digit_def)
next
  case (JArray vs)
  then show ?thesis
    by (cases vs) (simp_all add: value_head_def is_ws_def str_def)
next
  case (JObject kvs)
  then show ?thesis
    by (cases kvs) (auto simp: value_head_def is_ws_def str_def)
qed (auto simp: value_head_def is_ws_def str_def encode_basestring_ascii_def)

lemma skip_ws_iterencode:
  "valid_json v \<Longrightarrow> skip_ws (iterencode fl ind level v @ s) = iterencode fl ind level v @ s"
  using iterencode_head [of v fl ind level] by (auto simp: skip_ws_def value_head_def)

lemma scan_once_int_repr:
  assumes "tail_ok r"
  shows "scan_once fl (int_repr i @ r) = Some (JInt i, r)"
proof -
  obtain c t where h: "int_repr i = c # t" "c = 0x2D \<or> is_digit c"
    using int_repr_head by blast
  have "match_number (c # t @ r) = Some (c # t, [], [], r)"
    using match_number_int_repr [OF assms, of i] h(1) by simp
  from scan_once_int [OF h(2) this] parse_int_repr [of i] h(1) show ?thesis by simp
qed

lemma tail_ok_list: "tail_ok (iterencode_list fl ind level vs @ newline_indent ind k @ s)"
  by (cases vs) (simp_all add: tail_ok_def newline_indent_def is_digit_def)

lemma tail_ok_dict: "tail_ok (iterencode_dict fl ind level kvs @ newline_indent ind k @ s)"
  by (cases kvs) (auto simp: tail_ok_def newline_indent_def is_digit_def)

lemma scan_once_iterencode:
  "valid_json v \<Longrightarrow> tail_ok r \<Longrightarrow> scan_once fl (iterencode fl ind level v @ r) = Some (v, r)"
  and parse_array_iterencode_list:
  "valid_list vs \<Longrightarrow> scan_once fl s = Some (v0, iterencode_list fl ind level vs @ newline_indent ind k @ 0x5D # r)
    \<Longrightarrow> length (iterencode_list fl ind level vs @ newline_indent ind k @ 0x5D # r) < length s
    \<Longrightarrow> parse_array fl s = Some (v0 # vs, r)"
  and parse_object_iterencode_dict:
  "valid_dict kvs \<Longrightarrow> scanstring s = Some (key, r0) \<Longrightarrow> skip_ws r0 = 0x3A # r1
    \<Longrightarrow> scan_once fl (skip_ws r1) =
          Some (v0, iterencode_dict fl ind level kvs @ newline_indent ind k @ 0x7D # r)
    \<Longrightarrow> length (iterencode_dict fl ind level kvs @ newline_indent ind k @ 0x7D # r)
          < length (skip_ws r1)
    \<Longrightarrow> parse_object fl s = Some ((key, v0) # kvs, r)"
proof (induction fl ind level v and fl ind level vs and fl ind level kvs
    arbitrary: r and s v0 k r and s key r0 r1 v0 k r
    rule: iterencode_iterencode_list_iterencode_dict.induct)
  case (1 fl ind level)
  then show ?case by (simp add: scan_once_literals)
next
  case (2 fl ind level b)
  then show ?case by (simp add: scan_once_literals)
next
  case (3 fl ind level i)
  then show ?case by (simp add: scan_once_int_repr)
next
  case (4 fl ind level x)
  then show ?case by simp
next
  case (5 fl ind level t)
  then show ?case
    by (simp add: encode_basestring_ascii_def scan_once_string scanstring_escaped list_all_iff)
next
  case (6 fl ind level)
  then show ?case by (simp add: scan_once_literals)
next
  case (7 fl ind level v vs)
  let ?Y = "iterencode_list fl ind (level + 1) vs @ newline_indent ind level @ 0x5D # r"
  let ?E = "iterencode fl ind (level + 1) v"
  from "7.prems" have v: "valid_json v" and vs: "valid_list vs" by simp_all
  obtain c t where h: "?E = c # t" "value_head c"
    using iterencode_head [OF v] by blast
  have sk: "skip_ws (newline_indent ind (level + 1) @ ?E @ ?Y) = c # (t @ ?Y)"
    using skip_ws_iterencode [OF v, of fl ind "level + 1" ?Y] h(1) by simp
  have so: "scan_once fl (?E @ ?Y) = Some (v, ?Y)"
    by (rule "7.IH"(1) [OF v tail_ok_list])
  have len: "length ?Y < length (?E @ ?Y)" using h(1) by simp
  have pa: "parse_array fl (?E @ ?Y) = Some (v # vs, r)"
    by (rule "7.IH"(2) [OF vs so len])
  have "scan_once fl (0x5B # newline_indent ind (level + 1) @ ?E @ ?Y) = Some (JArray (v # vs), r)"
    using scan_once_array [OF sk, of fl] h pa by (simp add: value_head_def)
  then show ?case by simp
next
  case (8 fl ind level)
  then show ?case by (simp add: scan_once_literals)
next
  case (9 fl ind level key v kvs)
  let ?Z = "iterencode_dict fl ind (level + 1) kvs @ newline_indent ind level @ 0x7D # r"
  let ?E = "iterencode fl ind (level + 1) v"
  let ?K = "concat (map escape_char key) @ 0x22 # 0x3A # 0x20 # ?E @ ?Z"
  from "9.prems" have kv: "list_all scalar key" and v: "valid_json v" and kvs: "valid_dict kvs"
    and dist: "distinct (map fst ((key, v) # kvs))" by simp_all
  obtain c t where h: "?E = c # t" "value_head c"
    using iterencode_head [OF v] by blast
  have sk: "skip_ws (newline_indent ind (level + 1) @ 0x22 # ?K) = 0x22 # ?K"
    by (simp add: skip_ws_Cons is_ws_def)
  have ss: "scanstring ?K = Some (key, 0x3A # 0x20 # ?E @ ?Z)"
    using kv by (simp add: scanstring_escaped list_all_iff)
  have s0: "skip_ws (0x3A # 0x20 # ?E @ ?Z) = 0x3A # 0x20 # ?E @ ?Z"
    by (simp add: skip_ws_Cons is_ws_def)
  have s1: "skip_ws (0x20 # ?E @ ?Z) = ?E @ ?Z"
    using skip_ws_iterencode [OF v, of fl ind "level + 1" ?Z] by (simp add: skip_ws_def is_ws_def)
  have so: "scan_once fl (skip_ws (0x20 # ?E @ ?Z)) = Some (v, ?Z)"
    unfolding s1 by (rule "9.IH"(1) [OF v tail_ok_dict])
  have len: "length ?Z < length (skip_ws (0x20 # ?E @ ?Z))"
    unfolding s1 using h(1) by simp
  have po: "parse_object fl ?K = Some ((key, v) # kvs, r)"
    by (rule "9.IH"(2) [OF kvs ss s0 so len])
  have "scan_once fl (0x7B # newline_indent ind (level + 1) @ 0x22 # ?K)
          = Some (JObject ((key, v) # kvs), r)"
    using scan_once_object [OF sk, of fl] po dict_distinct [OF dist] by simp
  then show ?case by (simp add: encode_basestring_ascii_def)
next
  case (10 fl ind level)
  have "skip_ws (newline_indent ind k @ 0x5D # r) = 0x5D # r"
    by (simp add: skip_ws_Cons is_ws_def)
  with parse_array_step [OF "10.prems"(2)] "10.prems"(3) show ?case by simp
next
  case (11 fl ind level v vs)
  let ?Y = "iterencode_list fl ind level vs @ newline_indent ind k @ 0x5D # r"
  let ?E = "iterencode fl ind level v"
  let ?R = "0x2C # newline_indent ind level @ ?E @ ?Y"
  from "11.prems" have v: "valid_json v" and vs: "valid_list vs" by simp_all
  obtain c t where h: "?E = c # t" "value_head c"
    using iterencode_head [OF v] by blast
  from "11.prems"(2) have so0: "scan_once fl s = Some (v0, ?R)" by simp
  from "11.prems"(3) have len0: "length ?R < length s" by simp
  have sR: "skip_ws ?R = ?R" by (simp add: skip_ws_Cons is_ws_def)
  have s1: "skip_ws (newline_indent ind level @ ?E @ ?Y) = ?E @ ?Y"
    using skip_ws_iterencode [OF v, of fl ind level ?Y] by simp
  have so: "scan_once fl (?E @ ?Y) = Some (v, ?Y)"
    by (rule "11.IH"(1) [OF v tail_ok_list])
  have len: "length ?Y < length (?E @ ?Y)" using h(1) by simp
  have pa: "parse_array fl (?E @ ?Y) = Some (v # vs, r)"
    by (rule "11.IH"(2) [OF vs so len])
  show ?case
    using parse_array_step [OF so0 len0] sR s1 pa by simp
next
  case (12 fl ind level)
  have "skip_ws (newline_indent ind k @ 0x7D # r) = 0x7D # r"
    by (simp add: skip_ws_Cons is_ws_def)
  with parse_object_step [OF "12.prems"(2,3,4)] "12.prems"(5) show ?case by simp
next
  case (13 fl ind level ky v kvs)
  let ?Z = "iterencode_dict fl ind level kvs @ newline_indent ind k @ 0x7D # r"
  let ?E = "iterencode fl ind level v"
  let ?K = "concat (map escape_char ky) @ 0x22 # 0x3A # 0x20 # ?E @ ?Z"
  let ?R = "0x2C # newline_indent ind level @ 0x22 # ?K"
  from "13.prems"(1) have kv: "list_all scalar ky" and v: "valid_json v" and kvs: "valid_dict kvs"
    by simp_all
  obtain c t where h: "?E = c # t" "value_head c"
    using iterencode_head [OF v] by blast
  from "13.prems"(4) have so0: "scan_once fl (skip_ws r1) = Some (v0, ?R)"
    by (simp add: encode_basestring_ascii_def)
  from "13.prems"(5) have len0: "length ?R < length (skip_ws r1)"
    by (simp add: encode_basestring_ascii_def)
  have sR: "skip_ws ?R = ?R" by (simp add: skip_ws_Cons is_ws_def)
  have sq: "skip_ws (newline_indent ind level @ 0x22 # ?K) = 0x22 # ?K"
    by (simp add: skip_ws_Cons is_ws_def)
  have ss: "scanstring ?K = Some (ky, 0x3A # 0x20 # ?E @ ?Z)"
    using kv by (simp add: scanstring_escaped list_all_iff)
  have s0: "skip_ws (0x3A # 0x20 # ?E @ ?Z) = 0x3A # 0x20 # ?E @ ?Z"
    by (simp add: skip_ws_Cons is_ws_def)
  have s1: "skip_ws (0x20 # ?E @ ?Z) = ?E @ ?Z"
    using skip_ws_iterencode [OF v, of fl ind level ?Z] by (simp add: skip_ws_def is_ws_def)
  have so: "scan_once fl (skip_ws (0x20 # ?E @ ?Z)) = Some (v, ?Z)"
    unfolding s1 by (rule "13.IH"(1) [OF v tail_ok_dict])
  have len: "length ?Z < length (skip_ws (0x20 # ?E @ ?Z))"
    unfolding s1 using h(1) by simp
  have po: "parse_object fl ?K = Some ((ky, v) # kvs, r)"
    by (rule "13.IH"(2) [OF kvs ss s0 so len])
  show ?case
    using parse_object_step [OF "13.prems"(2,3) so0 len0] sR sq po by simp
qed

lemma json_loads_dumps:
  assumes "valid_json p"
  shows "json_loads w (json_dumps (float_ops w) ind p) = Inr p"
proof -
  let ?E = "iterencode (float_ops w) ind 0 p"
  obtain c t where h: "?E = c # t" "value_head c"
    using iterencode_head [OF assms] by blast
  have bom: "take 1 ?E \<noteq> [0xFEFF]" using h by (simp add: value_head_def)
  have sk: "skip_ws ?E = ?E"
    using skip_ws_iterencode [OF assms, of "float_ops w" ind 0 "[]"] by simp
  have so: "scan_once (float_ops w) ?E = Some (p, [])"
    using scan_once_iterencode [OF assms, of "[]" "float_ops w" ind 0]
    by (simp add: tail_ok_def)
  have e: "skip_ws [] = []" by (simp add: skip_ws_def)
  show ?thesis
    using bom by (simp add: json_loads_def json_dumps_def sk so e)
qed

lemma dumps_identity: "json_dumps no_floats 2 identity = identity_text"
  by (simp add: json_dumps_def identity_def identity_text_def text_lines_def quoted_def
      newline_indent_def encode_basestring_ascii_def escape_char_def str_def numeral_2_eq_2)

lemma valid_identity: "valid_json identity"
  by (simp add: identity_def scalar_def str_def)

text \<open>
  Claim C9. A run of \<open>main\<close> that succeeds prints two things: the line
  \<open>AWS reachable via boto3:\<close> or \<open>AWS reachable via aws-cli:\<close>, naming the path that
  succeeded, and then \<open>json.dumps\<close> of the payload of that path with indent 2. A run ends
  with exit code 0 only in these two ways.
\<close>

theorem success_output:
  "(check_with_boto3 w = Inr (Success p) \<longrightarrow>
      printed (snd (main w start)) =
        [str ''AWS reachable via boto3:'', json_dumps (float_ops w) 2 p]) \<and>
   (check_with_boto3 w = Inr (Failure (str ''boto3-not-available'')) \<and>
      fst (check_with_awscli w start) = Inr (Success p) \<longrightarrow>
      printed (snd (main w start)) =
        [str ''AWS reachable via aws-cli:'', json_dumps (float_ops w) 2 p]) \<and>
   (fst (main w start) = Exit 0 \<longrightarrow>
      (\<exists>q. check_with_boto3 w = Inr (Success q) \<or>
            check_with_boto3 w = Inr (Failure (str ''boto3-not-available'')) \<and>
            fst (check_with_awscli w start) = Inr (Success q)))"
  by (auto simp: main_unfold print_def start_def check_with_awscli_def Let_def
      split: sum.splits check.splits if_splits prod.splits)

theorem success_output_witness:
  "printed (snd (main world_sdk_ok start)) = [str ''AWS reachable via boto3:'', identity_text]"
  using success_output [of world_sdk_ok identity]
  by (simp add: sdk_ok_result) (simp add: world_sdk_ok_def dumps_identity)

text \<open>
  The strings must hold scalar values: a string of a high and a low surrogate is printed
  as two escapes, which \<open>json.loads\<close> reads back as the one character they encode.
\<close>

lemma surrogates_joined:
  "json_loads w (json_dumps (float_ops w) 2 (JString [0xD83D, 0xDE00])) = Inr (JString [0x1F600])"
proof -
  have e: "json_dumps (float_ops w) 2 (JString [0xD83D, 0xDE00])
             = 0x22 # u_escape 0xD83D @ u_escape 0xDE00 @ [0x22]"
    by (simp add: json_dumps_def encode_basestring_ascii_def escape_char_def)
  have "scanstring (u_escape (0xD800 + 0xF600 div 1024 mod 1024) @ u_escape (0xDC00 + 0xF600 mod 1024) @ [0x22])
          = Some ([0x10000 + 0xF600], [])"
    by (subst scanstring_surrogate_pair) (simp_all add: scanstring_quote)
  then have s: "scanstring (u_escape 0xD83D @ u_escape 0xDE00 @ [0x22]) = Some ([0x1F600], [])"
    by simp
  show ?thesis
    unfolding e by (simp add: json_loads_def skip_ws_def is_ws_def scan_once_string s)
qed

lemma loads_identity_text: "json_loads (world_cli r) (identity_text @ [0x0A]) = Inr identity"
proof -
  have f: "float_ops (world_cli r) = no_floats"
    by (simp add: world_cli_def world_sdk_ok_def)
  have "scan_once no_floats (iterencode no_floats 2 0 identity @ [0x0A]) = Some (identity, [0x0A])"
    by (rule scan_once_iterencode [OF valid_identity]) (simp add: tail_ok_def is_digit_def)
  then have so: "scan_once no_floats (identity_text @ [0x0A]) = Some (identity, [0x0A])"
    by (simp add: dumps_identity [symmetric] json_dumps_def)
  obtain c t where h: "iterencode no_floats 2 0 identity = c # t" "value_head c"
    using iterencode_head [OF valid_identity] by blast
  then have hd: "identity_text = c # t"
    by (simp add: dumps_identity [symmetric] json_dumps_def)
  have sk: "skip_ws (identity_text @ [0x0A]) = identity_text @ [0x0A]"
    using h(2) by (simp add: hd skip_ws_def value_head_def)
  have bom: "take 1 (identity_text @ [0x0A]) \<noteq> [0xFEFF]"
    using h(2) by (simp add: hd value_head_def)
  have e: "skip_ws [0x0A] = []" by (simp add: skip_ws_def is_ws_def)
  show ?thesis
    using bom by (simp add: json_loads_def f sk so e)
qed

lemma cli_identity_printed:
  "fst (check_with_awscli (world_cli (Inr identity_printed)) e) = Inr (Success identity)"
  using loads_identity_text [of "Inr identity_printed"]
  by (simp add: check_with_awscli_def Let_def identity_printed_def world_cli_def)

text \<open>
  Claim C5. For a payload that is valid JSON, on either path, \<open>json.loads\<close> of the JSON
  text that the successful run printed returns the payload itself.
\<close>

theorem printed_json_round_trip:
  "valid_json p \<Longrightarrow>
   check_with_boto3 w = Inr (Success p) \<or>
   check_with_boto3 w = Inr (Failure (str ''boto3-not-available'')) \<and>
   fst (check_with_awscli w start) = Inr (Success p) \<Longrightarrow>
   \<exists>header body. printed (snd (main w start)) = [header, body] \<and> json_loads w body = Inr p"
  by (auto simp: main_unfold print_def start_def check_with_awscli_def Let_def json_loads_dumps
      split: sum.splits check.splits if_splits prod.splits)

theorem printed_json_round_trip_witness:
  "valid_json identity \<and>
   (\<exists>header body. printed (snd (main world_sdk_ok start)) = [header, body]
      \<and> json_loads world_sdk_ok body = Inr identity) \<and>
   (\<exists>header body. printed (snd (main (world_cli (Inr identity_printed)) start)) = [header, body]
      \<and> json_loads (world_cli (Inr identity_printed)) body = Inr identity)"
  using printed_json_round_trip [OF valid_identity, of world_sdk_ok]
    printed_json_round_trip [OF valid_identity, of "world_cli (Inr identity_printed)"]
    valid_identity
  by (simp add: sdk_ok_result cli_world_result cli_identity_printed)

text \<open>
  Claim C1. The exit code of \<open>main\<close> by terminal state: success of the primary path 0,
  success of the fallback 0, failure of the fallback 3, no credentials 2, and an endpoint,
  client or unknown error of the primary path 4.
\<close>

theorem exit_code_by_terminal_state:
  "(check_with_boto3 w = Inr (Success p) \<longrightarrow> fst (main w e) = Exit 0) \<and>
   (check_with_boto3 w = Inr (Failure (str ''boto3-not-available'')) \<and>
      fst (check_with_awscli w e) = Inr (Success p) \<longrightarrow> fst (main w e) = Exit 0) \<and>
   (check_with_boto3 w = Inr (Failure (str ''boto3-not-available'')) \<and>
      fst (check_with_awscli w e) = Inr (Failure m) \<longrightarrow> fst (main w e) = Exit 3) \<and>
   (check_with_boto3 w = Inr (Failure (str ''no-credentials'')) \<longrightarrow> fst (main w e) = Exit 2) \<and>
   (check_with_boto3 w = Inr (Failure (str ''endpoint-error: '' @ m)) \<longrightarrow> fst (main w e) = Exit 4) \<and>
   (check_with_boto3 w = Inr (Failure (str ''client-error: '' @ m)) \<longrightarrow> fst (main w e) = Exit 4) \<and>
   (check_with_boto3 w = Inr (Failure (str ''unknown-error: '' @ m)) \<longrightarrow> fst (main w e) = Exit 4)"
  by (auto simp: main_unfold failure_texts_distinct failure_texts_distinct [symmetric]
      split: prod.splits)

theorem exit_code_by_terminal_state_witness:
  "fst (main world_sdk_ok start) = Exit 0
   \<and> fst (main (world_cli (Inr identity_printed)) start) = Exit 0
   \<and> fst (main (world_cli (Inr credentials_missing)) start) = Exit 3
   \<and> fst (main (world_sdk_raises (Exn NoCredentialsError [])) start) = Exit 2
   \<and> fst (main (world_sdk_raises (Exn EndpointConnectionError (str ''timed out''))) start) = Exit 4"
  using exit_code_by_terminal_state [of world_sdk_ok identity start "[]"]
    exit_code_by_terminal_state [of "world_cli (Inr identity_printed)" identity start "[]"]
    exit_code_by_terminal_state [of "world_cli (Inr credentials_missing)" identity start
      "str ''aws-cli-error: Unable to locate credentials''"]
    exit_code_by_terminal_state [of "world_sdk_raises (Exn NoCredentialsError [])" identity start "[]"]
    exit_code_by_terminal_state [of "world_sdk_raises (Exn EndpointConnectionError (str ''timed out''))"
      identity start "str ''timed out''"]
  by (simp add: sdk_ok_result sdk_raises_result cli_world_result cli_credentials_missing
      cli_identity_printed)

end
